theory Spec2Isabelle
  imports Complex_Main "HOL-Library.Multiset"
begin

section \<open>Values, errors and the library operations the two modules call\<close>

text \<open>
  The repository is two Python modules, \<open>MR.py\<close> (the loader \<open>load_user_artists\<close> and the
  class \<open>ArtistRetriever\<close>) and \<open>recommender.py\<close> (the class \<open>ImplicitRecommender\<close>).
  Every exception the code can raise is a value of \<open>error\<close>; a call that may raise returns
  \<open>error + 'a\<close>, with \<open>Inl\<close> for the exception.
\<close>

datatype error =
    FileNotFoundError
  | ParserError
  | KeyError
  | AttributeError
  | ValueError
  | TypeError
  | IndexError

text \<open>
  A pandas column has one dtype for all of its cells. \<open>Int64\<close> and \<open>Float64\<close> are the
  numeric dtypes (floating-point numbers are idealised as reals: rounding is not modelled),
  \<open>Object\<close> is a column of strings. A frame as \<open>read_csv\<close> returns it is the list of its
  named columns, in file order.
\<close>

datatype column = Int64 "int list" | Float64 "real list" | Object "string list"

datatype pyval = PInt int | PFloat real | PStr string

type_synonym dataframe = "(string \<times> column) list"

fun column_values :: "column \<Rightarrow> pyval list" where
  "column_values (Int64 xs) = map PInt xs"
| "column_values (Float64 xs) = map PFloat xs"
| "column_values (Object xs) = map PStr xs"

fun column_length :: "column \<Rightarrow> nat" where
  "column_length (Int64 xs) = length xs"
| "column_length (Float64 xs) = length xs"
| "column_length (Object xs) = length xs"

text \<open>
  \<open>pd.read_csv(path, sep="\t")\<close> reads the file system: it is a parameter of the model,
  a function from the path to the parsed frame or to the exception raised.
\<close>

type_synonym csv_reader = "string \<Rightarrow> error + dataframe"

text \<open>
  \<open>DataFrame.set_index\<close>: the key columns become the index and leave the columns; a key that
  is not a column raises KeyError. \<open>set_index\<close> is the call with one key (the artists file),
  \<open>set_index2\<close> the call with a list of two keys (the interactions file), whose result has
  a two-level index.
\<close>

record frame =
  frame_index :: column
  frame_columns :: dataframe

record frame2 =
  level0 :: column
  level1 :: column
  frame2_columns :: dataframe

definition drop_columns :: "string list \<Rightarrow> dataframe \<Rightarrow> dataframe" where
  "drop_columns keys df = filter (\<lambda>c. fst c \<notin> set keys) df"

definition set_index :: "string \<Rightarrow> dataframe \<Rightarrow> error + frame" where
  "set_index key df =
     (case map_of df key of
        None \<Rightarrow> Inl KeyError
      | Some idx \<Rightarrow> Inr \<lparr>frame_index = idx, frame_columns = drop_columns [key] df\<rparr>)"

definition set_index2 :: "string \<Rightarrow> string \<Rightarrow> dataframe \<Rightarrow> error + frame2" where
  "set_index2 key0 key1 df =
     (case map_of df key0 of
        None \<Rightarrow> Inl KeyError
      | Some idx0 \<Rightarrow>
          (case map_of df key1 of
             None \<Rightarrow> Inl KeyError
           | Some idx1 \<Rightarrow>
               Inr \<lparr>level0 = idx0, level1 = idx1,
                    frame2_columns = drop_columns [key0, key1] df\<rparr>))"

text \<open>
  \<open>Series.astype(float)\<close>: a numeric column is converted, a column of strings is converted
  cell by cell with Python's \<open>float\<close>, which raises ValueError on the first string that is
  not a number. Python's \<open>float\<close> on strings is a parameter (\<open>None\<close>: not a number).
\<close>

definition astype_float :: "(string \<Rightarrow> real option) \<Rightarrow> column \<Rightarrow> error + real list" where
  "astype_float py_float col =
     (case col of
        Int64 xs \<Rightarrow> Inr (map real_of_int xs)
      | Float64 xs \<Rightarrow> Inr xs
      | Object ss \<Rightarrow>
          (case those (map py_float ss) of
             None \<Rightarrow> Inl ValueError
           | Some xs \<Rightarrow> Inr xs))"

subsection \<open>scipy.sparse\<close>

text \<open>
  A COO matrix keeps three parallel arrays and a shape. \<open>coo_matrix((data, (row, col)))\<close>
  infers the shape from the largest index on each axis. It raises ValueError when an index
  array is empty (the shape cannot be inferred), when the arrays differ in length or when an
  index is negative, and TypeError when an index array is not of integers.
\<close>

record coo =
  coo_shape :: "nat \<times> nat"
  coo_row :: "nat list"
  coo_col :: "nat list"
  coo_data :: "real list"

definition coo_matrix :: "real list \<Rightarrow> column \<Rightarrow> column \<Rightarrow> error + coo" where
  "coo_matrix data row col =
     (if column_length row = 0 \<or> column_length col = 0 then Inl ValueError
      else
        (case row of
           Int64 rs \<Rightarrow>
             (case col of
                Int64 cs \<Rightarrow>
                  if length rs \<noteq> length data \<or> length cs \<noteq> length data then Inl ValueError
                  else if (\<exists>r \<in> set rs. r < 0) \<or> (\<exists>c \<in> set cs. c < 0) then Inl ValueError
                  else Inr \<lparr>coo_shape = (nat (Max (set rs)) + 1, nat (Max (set cs)) + 1),
                            coo_row = map nat rs, coo_col = map nat cs, coo_data = data\<rparr>
              | _ \<Rightarrow> Inl TypeError)
         | _ \<Rightarrow> Inl TypeError))"

text \<open>
  A CSR matrix is stored by rows: one list of (column, value) entries per row. \<open>tocsr\<close>
  distributes the triples over the rows in their order, sorts every row by column and adds
  up the entries of a row that share a column (\<open>sum_duplicates\<close>).
\<close>

record csr_matrix =
  csr_ncols :: nat
  csr_rows :: "(nat \<times> real) list list"

definition csr_shape :: "csr_matrix \<Rightarrow> nat \<times> nat" where
  "csr_shape M = (length (csr_rows M), csr_ncols M)"

fun sum_duplicates :: "(nat \<times> real) list \<Rightarrow> (nat \<times> real) list" where
  "sum_duplicates [] = []"
| "sum_duplicates [e] = [e]"
| "sum_duplicates ((c1, v1) # (c2, v2) # es) =
     (if c1 = c2 then sum_duplicates ((c1, v1 + v2) # es)
      else (c1, v1) # sum_duplicates ((c2, v2) # es))"

definition coo_triples :: "coo \<Rightarrow> (nat \<times> nat \<times> real) list" where
  "coo_triples A = zip (coo_row A) (zip (coo_col A) (coo_data A))"

definition csr_row_of :: "(nat \<times> nat \<times> real) list \<Rightarrow> nat \<Rightarrow> (nat \<times> real) list" where
  "csr_row_of ts r = sum_duplicates (sort_key fst (map snd (filter (\<lambda>t. fst t = r) ts)))"

definition tocsr :: "coo \<Rightarrow> csr_matrix" where
  "tocsr A =
     \<lparr>csr_ncols = snd (coo_shape A),
      csr_rows = map (csr_row_of (coo_triples A)) [0 ..< fst (coo_shape A)]\<rparr>"

text \<open>
  Reading a matrix: \<open>M[u, i]\<close> is the stored value of the cell, zero when nothing is
  stored, and IndexError outside the shape; \<open>M.sum()\<close> adds up the stored values;
  \<open>M[n]\<close> with a Python integer is row \<open>n\<close> as a new matrix of one row, where a negative
  \<open>n\<close> counts from the last row and an \<open>n\<close> outside the rows raises IndexError.
\<close>

definition csr_get :: "csr_matrix \<Rightarrow> nat \<Rightarrow> nat \<Rightarrow> error + real" where
  "csr_get M u i =
     (if u < length (csr_rows M) \<and> i < csr_ncols M
      then Inr (case map_of (csr_rows M ! u) i of None \<Rightarrow> 0 | Some v \<Rightarrow> v)
      else Inl IndexError)"

definition csr_sum :: "csr_matrix \<Rightarrow> real" where
  "csr_sum M = sum_list (map (\<lambda>row. sum_list (map snd row)) (csr_rows M))"

definition csr_getrow :: "csr_matrix \<Rightarrow> int \<Rightarrow> error + csr_matrix" where
  "csr_getrow M n =
     (let m = int (length (csr_rows M)) in
      if n < - m \<or> m \<le> n then Inl IndexError
      else Inr \<lparr>csr_ncols = csr_ncols M,
                csr_rows = [csr_rows M ! nat (if n < 0 then n + m else n)]\<rparr>)"

section \<open>MR.py\<close>

subsection \<open>load_user_artists\<close>

text \<open>
  The statements of the function in their order: read the file, move \<open>userID\<close> and
  \<open>artistID\<close> into the index, take the attribute \<open>weight\<close> (AttributeError when the frame
  has no such column) and convert it to floats, take the two index levels, build the COO
  matrix and convert it to CSR. The first exception ends the call.
\<close>

definition load_user_artists ::
    "(string \<Rightarrow> real option) \<Rightarrow> csv_reader \<Rightarrow> string \<Rightarrow> error + csr_matrix" where
  "load_user_artists py_float read_csv user_artists_file =
     (case read_csv user_artists_file of
        Inl e \<Rightarrow> Inl e
      | Inr df \<Rightarrow>
          (case set_index2 ''userID'' ''artistID'' df of
             Inl e \<Rightarrow> Inl e
           | Inr user_artists \<Rightarrow>
               (case map_of (frame2_columns user_artists) ''weight'' of
                  None \<Rightarrow> Inl AttributeError
                | Some weight \<Rightarrow>
                    (case astype_float py_float weight of
                       Inl e \<Rightarrow> Inl e
                     | Inr data \<Rightarrow>
                         (case coo_matrix data (level0 user_artists) (level1 user_artists) of
                            Inl e \<Rightarrow> Inl e
                          | Inr A \<Rightarrow> Inr (tocsr A))))))"

subsection \<open>ArtistRetriever\<close>

text \<open>
  The instance has one attribute, \<open>_artists_df\<close>, which is \<open>None\<close> after \<open>__init__\<close>.
  \<open>df.loc[label, column]\<close> raises KeyError when the frame has no such column or the index
  has no such label, returns the cell when one row carries the label, and the cells of all
  these rows as a Series when several do.
\<close>

record artist_retriever =
  artists_df :: "frame option"

definition ArtistRetriever_init :: artist_retriever where
  "ArtistRetriever_init = \<lparr>artists_df = None\<rparr>"

datatype loc_result = Scalar pyval | Series "pyval list"

fun label_eq :: "int \<Rightarrow> pyval \<Rightarrow> bool" where
  "label_eq k (PInt j) = (j = k)"
| "label_eq k (PFloat x) = (x = real_of_int k)"
| "label_eq k (PStr s) = False"

definition loc :: "frame \<Rightarrow> int \<Rightarrow> string \<Rightarrow> error + loc_result" where
  "loc df label name =
     (case map_of (frame_columns df) name of
        None \<Rightarrow> Inl KeyError
      | Some col \<Rightarrow>
          (case map snd (filter (\<lambda>r. label_eq label (fst r))
                          (zip (column_values (frame_index df)) (column_values col))) of
             [] \<Rightarrow> Inl KeyError
           | [v] \<Rightarrow> Inr (Scalar v)
           | vs \<Rightarrow> Inr (Series vs)))"

definition get_artist_name_from_id :: "artist_retriever \<Rightarrow> int \<Rightarrow> error + loc_result" where
  "get_artist_name_from_id self artist_id =
     (case artists_df self of
        None \<Rightarrow> Inl AttributeError
      | Some df \<Rightarrow> loc df artist_id ''name'')"

text \<open>
  \<open>load_artists\<close> returns nothing and changes the instance: the result is the outcome
  together with the instance as the call leaves it.
\<close>

definition load_artists ::
    "csv_reader \<Rightarrow> string \<Rightarrow> artist_retriever \<Rightarrow> (error + unit) \<times> artist_retriever" where
  "load_artists read_csv artists_file self =
     (case read_csv artists_file of
        Inl e \<Rightarrow> (Inl e, self)
      | Inr df \<Rightarrow>
          (case set_index ''id'' df of
             Inl e \<Rightarrow> (Inl e, self)
           | Inr artists \<Rightarrow> (Inr (), self\<lparr>artists_df := Some artists\<rparr>)))"

section \<open>recommender.py\<close>

text \<open>
  The injected model is any object with \<open>fit\<close> and \<open>recommend\<close>: a state of type \<open>'m\<close> and
  the two methods, each returning its outcome and the model's new state.
\<close>

record 'm recommender_base =
  model_fit :: "'m \<Rightarrow> csr_matrix \<Rightarrow> (error + unit) \<times> 'm"
  model_recommend ::
    "'m \<Rightarrow> int \<Rightarrow> csr_matrix \<Rightarrow> int \<Rightarrow> (error + (int list \<times> real list)) \<times> 'm"

record 'm implicit_recommender =
  artist_retriever :: artist_retriever
  implicit_model :: 'm

definition fit ::
    "'m recommender_base \<Rightarrow> 'm implicit_recommender \<Rightarrow> csr_matrix
       \<Rightarrow> (error + unit) \<times> 'm implicit_recommender" where
  "fit ops self user_artists_matrix =
     (case model_fit ops (implicit_model self) user_artists_matrix of
        (r, m') \<Rightarrow> (r, self\<lparr>implicit_model := m'\<rparr>))"

text \<open>
  The list comprehension of \<open>recommend\<close>: the ids are translated from left to right and
  the first exception ends it.
\<close>

fun artist_names :: "artist_retriever \<Rightarrow> int list \<Rightarrow> error + loc_result list" where
  "artist_names r [] = Inr []"
| "artist_names r (artist_id # ids) =
     (case get_artist_name_from_id r artist_id of
        Inl e \<Rightarrow> Inl e
      | Inr a \<Rightarrow>
          (case artist_names r ids of
             Inl e \<Rightarrow> Inl e
           | Inr as \<Rightarrow> Inr (a # as)))"

text \<open>
  \<open>recommend\<close> evaluates \<open>user_artists_matrix[n]\<close>, calls the model with \<open>user_id\<close>, that
  row and \<open>N=n\<close>, and translates the ids. The result is the outcome together with the two
  objects the caller still holds, the recommender and the matrix, as the call leaves them:
  the row is a new matrix, so the matrix argument is only read.
\<close>

definition recommend ::
    "'m recommender_base \<Rightarrow> 'm implicit_recommender \<Rightarrow> int \<Rightarrow> csr_matrix \<Rightarrow> int
       \<Rightarrow> (error + (loc_result list \<times> real list)) \<times> 'm implicit_recommender \<times> csr_matrix" where
  "recommend ops self user_id user_artists_matrix n =
     (case csr_getrow user_artists_matrix n of
        Inl e \<Rightarrow> (Inl e, self, user_artists_matrix)
      | Inr row \<Rightarrow>
          (case model_recommend ops (implicit_model self) user_id row n of
             (Inl e, m') \<Rightarrow> (Inl e, self\<lparr>implicit_model := m'\<rparr>, user_artists_matrix)
           | (Inr (artist_ids, scores), m') \<Rightarrow>
               (case artist_names (artist_retriever self) artist_ids of
                  Inl e \<Rightarrow> (Inl e, self\<lparr>implicit_model := m'\<rparr>, user_artists_matrix)
                | Inr artists \<Rightarrow>
                    (Inr (artists, scores), self\<lparr>implicit_model := m'\<rparr>,
                     user_artists_matrix))))"

section \<open>Notions the properties are stated with\<close>

text \<open>
  The records of an interactions file are the rows (userID, artistID, weight).
  \<open>pair_weight recs u i\<close> is the sum of the weights of the records with the pair
  \<open>(u, i)\<close>, zero when there is none.
\<close>

definition pair_weight :: "(int \<times> int \<times> real) list \<Rightarrow> int \<Rightarrow> int \<Rightarrow> real" where
  "pair_weight recs u i =
     sum_list (map (\<lambda>r. snd (snd r)) (filter (\<lambda>r. fst r = u \<and> fst (snd r) = i) recs))"

definition cell_sum :: "(nat \<times> nat \<times> real) list \<Rightarrow> nat \<Rightarrow> nat \<Rightarrow> real" where
  "cell_sum ts r c =
     sum_list (map (\<lambda>t. snd (snd t)) (filter (\<lambda>t. fst t = r \<and> fst (snd t) = c) ts))"

text \<open>The value of a cell inside the shape, and the sum of the cells over the whole shape.\<close>

definition csr_cell :: "csr_matrix \<Rightarrow> nat \<Rightarrow> nat \<Rightarrow> real" where
  "csr_cell M u i = (case csr_get M u i of Inl e \<Rightarrow> 0 | Inr v \<Rightarrow> v)"

definition csr_dense_sum :: "csr_matrix \<Rightarrow> real" where
  "csr_dense_sum M =
     sum_list (map (\<lambda>u. sum_list (map (\<lambda>i. csr_cell M u i) [0 ..< csr_ncols M]))
                   [0 ..< length (csr_rows M)])"

text \<open>The coordinates at which the matrix stores an entry.\<close>

definition csr_coords :: "csr_matrix \<Rightarrow> (nat \<times> nat) list" where
  "csr_coords M =
     concat (map (\<lambda>u. map (\<lambda>e. (u, fst e)) (csr_rows M ! u)) [0 ..< length (csr_rows M)])"

text \<open>
  The instance after each statement of \<open>load_artists\<close> that was reached (the two
  statements that build the local frame, then the assignment to the attribute), and the
  instance after a sequence of loads, whatever their outcomes.
\<close>

definition load_artists_states ::
    "csv_reader \<Rightarrow> string \<Rightarrow> artist_retriever \<Rightarrow> artist_retriever list" where
  "load_artists_states read_csv artists_file self =
     (case read_csv artists_file of
        Inl e \<Rightarrow> [self]
      | Inr df \<Rightarrow>
          (case set_index ''id'' df of
             Inl e \<Rightarrow> [self, self]
           | Inr artists \<Rightarrow> [self, self, self\<lparr>artists_df := Some artists\<rparr>]))"

definition load_all :: "csv_reader \<Rightarrow> string list \<Rightarrow> artist_retriever \<Rightarrow> artist_retriever" where
  "load_all read_csv files self = fold (\<lambda>f s. snd (load_artists read_csv f s)) files self"

text \<open>An id has an entry in the directory when the loaded table's index holds it.\<close>

definition has_entry :: "artist_retriever \<Rightarrow> int \<Rightarrow> bool" where
  "has_entry r a =
     (case artists_df r of
        None \<Rightarrow> False
      | Some df \<Rightarrow> \<exists>l \<in> set (column_values (frame_index df)). label_eq a l)"

section \<open>Concrete files and models\<close>

text \<open>
  A \<open>float\<close> that knows two numerals, a directory of interaction files and a directory of
  artists files, as \<open>read_csv\<close> would parse them. A file with a header and no rows has
  empty columns of strings.
\<close>

definition float_of_numeral :: "string \<Rightarrow> real option" where
  "float_of_numeral s = (if s = ''5'' then Some 5 else if s = ''3'' then Some 3 else None)"

definition interaction_files :: csv_reader where
  "interaction_files path =
     (if path = ''user_artists.dat'' then
        Inr [(''userID'', Int64 [1, 1, 2]), (''artistID'', Int64 [10, 10, 4]),
             (''weight'', Int64 [5, 3, 7])]
      else if path = ''header_only.dat'' then
        Inr [(''userID'', Object []), (''artistID'', Object []), (''weight'', Object [])]
      else if path = ''no_user.dat'' then
        Inr [(''artistID'', Int64 [10]), (''weight'', Int64 [5])]
      else if path = ''no_weight.dat'' then
        Inr [(''userID'', Int64 [1]), (''artistID'', Int64 [10])]
      else if path = ''bad_weight.dat'' then
        Inr [(''userID'', Int64 [1, 1]), (''artistID'', Int64 [10, 10]),
             (''weight'', Object [''5'', ''many''])]
      else Inl FileNotFoundError)"

definition artist_files :: csv_reader where
  "artist_files path =
     (if path = ''artists.dat'' then
        Inr [(''id'', Int64 [1, 2]), (''name'', Object [''A'', ''B'']),
             (''url'', Object [''a.example'', ''b.example''])]
      else if path = ''no_id.dat'' then
        Inr [(''name'', Object [''A'', ''B''])]
      else Inl FileNotFoundError)"

definition loaded_directory :: artist_retriever where
  "loaded_directory =
     \<lparr>artists_df = Some \<lparr>frame_index = Int64 [1, 2],
                           frame_columns = [(''name'', Object [''A'', ''B''])]\<rparr>\<rparr>"

text \<open>
  Two models. The first records the arguments of every \<open>recommend\<close> call in its state and
  recommends nothing. The second returns the ids and scores it was built with and counts
  its calls.
\<close>

definition recording_model :: "(int \<times> csr_matrix \<times> int) list recommender_base" where
  "recording_model =
     \<lparr>model_fit = (\<lambda>m M. (Inr (), m)),
      model_recommend = (\<lambda>m user_id row n. (Inr ([], []), m @ [(user_id, row, n)]))\<rparr>"

definition fixed_model :: "int list \<Rightarrow> real list \<Rightarrow> nat recommender_base" where
  "fixed_model ids scores =
     \<lparr>model_fit = (\<lambda>m M. (Inr (), m)),
      model_recommend = (\<lambda>m user_id row n. (Inr (ids, scores), Suc m))\<rparr>"

definition three_users :: csr_matrix where
  "three_users = \<lparr>csr_ncols = 2, csr_rows = [[], [(0, 5)], [(1, 7)]]\<rparr>"

section \<open>Lemmas about the sparse matrices\<close>

lemma sum_duplicates_sum:
  "sum_list (map snd (sum_duplicates es)) = sum_list (map snd es)"
  by (induction es rule: sum_duplicates.induct) auto

lemma sum_duplicates_keys: "fst ` set (sum_duplicates es) = fst ` set es"
  by (induction es rule: sum_duplicates.induct) auto

lemma filter_key_absent:
  "c \<notin> fst ` set es \<Longrightarrow> filter (\<lambda>e. fst e = c) es = []"
  by (induction es) auto

lemma map_of_sum_duplicates:
  "sorted (map fst es) \<Longrightarrow>
   map_of (sum_duplicates es) c =
     (if c \<in> fst ` set es then Some (sum_list (map snd (filter (\<lambda>e. fst e = c) es))) else None)"
proof (induction es rule: sum_duplicates.induct)
  case 1
  then show ?case by simp
next
  case (2 e)
  then show ?case by (cases e) auto
next
  case (3 c1 v1 c2 v2 es)
  show ?case
  proof (cases "c1 = c2")
    case True
    with 3 show ?thesis by (auto simp: image_iff)
  next
    case False
    with 3(3) have lt: "c1 < c2" and le: "\<forall>x \<in> set es. c1 < fst x" by auto
    have srt: "sorted (map fst ((c2, v2) # es))" using 3(3) by simp
    have ih: "map_of (sum_duplicates ((c2, v2) # es)) c =
       (if c \<in> fst ` set ((c2, v2) # es)
        then Some (sum_list (map snd (filter (\<lambda>e. fst e = c) ((c2, v2) # es)))) else None)"
      using 3(2)[OF False srt] .
    have nomore: "filter (\<lambda>e. fst e = c1) es = []"
      using le by (intro filter_key_absent) auto
    show ?thesis
      using False lt le ih nomore by (auto simp: image_iff)
  qed
qed


lemma csr_row_of_lookup:
  "(case map_of (csr_row_of ts r) c of None \<Rightarrow> 0 | Some v \<Rightarrow> v) = cell_sum ts r c"
proof -
  let ?row = "map snd (filter (\<lambda>t. fst t = r) ts)"
  have srt: "sorted (map fst (sort_key fst ?row))" by (rule sorted_sort_key)
  have st: "filter (\<lambda>e. fst e = c) (sort_key fst ?row) = filter (\<lambda>e. fst e = c) ?row"
    by (rule sort_key_stable)
  have flt: "filter (\<lambda>e. fst e = c) ?row = map snd (filter (\<lambda>t. fst t = r \<and> fst (snd t) = c) ts)"
    by (induction ts) auto
  have empty: "c \<notin> fst ` set (sort_key fst ?row) \<Longrightarrow> cell_sum ts r c = 0"
  proof -
    assume a: "c \<notin> fst ` set (sort_key fst ?row)"
    have "filter (\<lambda>t. fst t = r \<and> fst (snd t) = c) ts = []"
      unfolding filter_empty_conv using a by force
    then show ?thesis by (simp add: cell_sum_def)
  qed
  show ?thesis
    unfolding csr_row_of_def
    using empty by (simp add: map_of_sum_duplicates[OF srt] st flt cell_sum_def comp_def)
qed

lemma sum_list_sort_key:
  fixes f :: "'a \<Rightarrow> real"
  shows "sum_list (map f (sort_key k xs)) = sum_list (map f xs)"
proof -
  have "mset (map f (sort_key k xs)) = mset (map f xs)" by simp
  then show ?thesis by (metis sum_mset_sum_list)
qed

lemma csr_row_of_sum:
  "sum_list (map snd (csr_row_of ts r)) = sum_list (map (\<lambda>t. snd (snd t)) (filter (\<lambda>t. fst t = r) ts))"
proof -
  let ?row = "map snd (filter (\<lambda>t. fst t = r) ts)"
  have "sum_list (map snd (sort_key fst ?row)) = sum_list (map snd ?row)"
    by (rule sum_list_sort_key)
  then show ?thesis
    unfolding csr_row_of_def by (simp add: sum_duplicates_sum comp_def)
qed

lemma csr_row_of_keys:
  "fst ` set (csr_row_of ts r) = {c. \<exists>v. (r, c, v) \<in> set ts}"
  unfolding csr_row_of_def by (force simp: sum_duplicates_keys image_iff)

lemma sum_list_delta_upt:
  "sum_list (map (\<lambda>r. if a = r then (v::real) else 0) [0 ..< m]) = (if a < m then v else 0)"
  by (induction m) auto

lemma rows_partition:
  fixes ts :: "(nat \<times> nat \<times> real) list"
  shows "\<forall>t \<in> set ts. fst t < m \<Longrightarrow>
   sum_list (map (\<lambda>r. sum_list (map (\<lambda>t. snd (snd t)) (filter (\<lambda>t. fst t = r) ts))) [0 ..< m])
     = sum_list (map (\<lambda>t. snd (snd t)) ts)"
proof (induction ts)
  case Nil
  then show ?case by (induction m) auto
next
  case (Cons t ts)
  have one: "sum_list (map (\<lambda>r. if fst t = r then snd (snd t) else (0::real)) [0 ..< m]) = snd (snd t)"
    using Cons.prems by (simp add: sum_list_delta_upt)
  have "sum_list (map (\<lambda>r. sum_list (map (\<lambda>t. snd (snd t)) (filter (\<lambda>t. fst t = r) (t # ts)))) [0 ..< m])
      = sum_list (map (\<lambda>r. (if fst t = r then snd (snd t) else 0)
           + sum_list (map (\<lambda>t. snd (snd t)) (filter (\<lambda>t. fst t = r) ts))) [0 ..< m])"
    by (intro arg_cong[where f = sum_list] map_cong) auto
  also have "\<dots> = snd (snd t) + sum_list (map (\<lambda>t. snd (snd t)) ts)"
    using Cons one by (simp add: sum_list_addf)
  finally show ?case by simp
qed

lemma map_of_drop_columns:
  "map_of (drop_columns keys df) k = (if k \<in> set keys then None else map_of df k)"
  unfolding drop_columns_def by (induction df) auto


lemma triples_data:
  "length rs = length ws \<Longrightarrow> length cs = length ws \<Longrightarrow>
   map (\<lambda>t. snd (snd t)) (zip rs (zip cs ws)) = ws"
proof -
  assume a: "length rs = length ws" "length cs = length ws"
  have "map (\<lambda>t. snd (snd t)) (zip rs (zip cs ws)) = map snd (map snd (zip rs (zip cs ws)))"
    by simp
  also have "\<dots> = ws" using a by simp
  finally show ?thesis .
qed

lemma triples_rows:
  "length rs = length ws \<Longrightarrow> length cs = length ws \<Longrightarrow>
   (r, c, v) \<in> set (zip rs (zip cs ws)) \<Longrightarrow> r \<in> set rs \<and> c \<in> set cs"
  by (meson set_zip_leftD set_zip_rightD)

lemma cells_partition:
  fixes ts :: "(nat \<times> nat \<times> real) list"
  shows "\<forall>t \<in> set ts. fst t < m \<and> fst (snd t) < k \<Longrightarrow>
   sum_list (map (\<lambda>u. sum_list (map (\<lambda>i. cell_sum ts u i) [0 ..< k])) [0 ..< m])
     = sum_list (map (\<lambda>t. snd (snd t)) ts)"
proof (induction ts)
  case Nil
  then show ?case by (simp add: cell_sum_def)
next
  case (Cons t ts)
  obtain r c v where t: "t = (r, c, v)" by (cases t) auto
  have rc: "r < m" "c < k" using Cons.prems t by auto
  have cell: "\<And>u i. cell_sum (t # ts) u i = (if r = u then (if c = i then v else 0) else 0) + cell_sum ts u i"
    by (auto simp: cell_sum_def t)
  have inner: "\<And>u. sum_list (map (\<lambda>i. cell_sum (t # ts) u i) [0 ..< k])
      = (if r = u then v else 0) + sum_list (map (\<lambda>i. cell_sum ts u i) [0 ..< k])"
    using rc by (simp add: cell sum_list_addf sum_list_delta_upt)
  have "sum_list (map (\<lambda>u. sum_list (map (\<lambda>i. cell_sum (t # ts) u i) [0 ..< k])) [0 ..< m])
      = v + sum_list (map (\<lambda>u. sum_list (map (\<lambda>i. cell_sum ts u i) [0 ..< k])) [0 ..< m])"
    using rc by (simp add: inner sum_list_addf sum_list_delta_upt)
  then show ?case using Cons t by simp
qed

lemma tocsr_get:
  "u < fst (coo_shape A) \<Longrightarrow> i < snd (coo_shape A) \<Longrightarrow>
   csr_get (tocsr A) u i = Inr (cell_sum (coo_triples A) u i)"
  by (simp add: csr_get_def tocsr_def csr_row_of_lookup)

lemma tocsr_sum:
  "\<forall>t \<in> set (coo_triples A). fst t < fst (coo_shape A) \<Longrightarrow>
   csr_sum (tocsr A) = sum_list (map (\<lambda>t. snd (snd t)) (coo_triples A))"
  using rows_partition[of "coo_triples A" "fst (coo_shape A)"]
  by (simp add: csr_sum_def tocsr_def comp_def csr_row_of_sum)

lemma tocsr_dense_sum:
  "\<forall>t \<in> set (coo_triples A). fst t < fst (coo_shape A) \<and> fst (snd t) < snd (coo_shape A) \<Longrightarrow>
   csr_dense_sum (tocsr A) = sum_list (map (\<lambda>t. snd (snd t)) (coo_triples A))"
proof -
  assume a: "\<forall>t \<in> set (coo_triples A). fst t < fst (coo_shape A) \<and> fst (snd t) < snd (coo_shape A)"
  have "csr_dense_sum (tocsr A) =
      sum_list (map (\<lambda>u. sum_list (map (\<lambda>i. cell_sum (coo_triples A) u i) [0 ..< snd (coo_shape A)]))
                    [0 ..< fst (coo_shape A)])"
    unfolding csr_dense_sum_def
    by (intro arg_cong[where f = sum_list] map_cong)
       (auto simp: csr_cell_def tocsr_get, auto simp: tocsr_def)
  then show ?thesis using cells_partition[OF a] by simp
qed

lemma tocsr_coords:
  "\<forall>t \<in> set (coo_triples A). fst t < fst (coo_shape A) \<Longrightarrow>
   set (csr_coords (tocsr A)) = (\<lambda>t. (fst t, fst (snd t))) ` set (coo_triples A)"
proof -
  assume a: "\<forall>t \<in> set (coo_triples A). fst t < fst (coo_shape A)"
  have "set (csr_coords (tocsr A)) =
      {(u, c). u < fst (coo_shape A) \<and> c \<in> fst ` set (csr_row_of (coo_triples A) u)}"
    by (auto simp: csr_coords_def tocsr_def image_iff)
  also have "\<dots> = {(u, c). u < fst (coo_shape A) \<and> (\<exists>v. (u, c, v) \<in> set (coo_triples A))}"
    by (simp add: csr_row_of_keys)
  also have "\<dots> = (\<lambda>t. (fst t, fst (snd t))) ` set (coo_triples A)"
    using a by (force simp: image_iff)
  finally show ?thesis .
qed

lemma cell_sum_nat:
  "\<forall>u \<in> set us. 0 \<le> u \<Longrightarrow> \<forall>i \<in> set ars. 0 \<le> i \<Longrightarrow>
   cell_sum (zip (map nat us) (zip (map nat ars) ws)) u i
     = pair_weight (zip us (zip ars ws)) (int u) (int i)"
proof (induction us arbitrary: ars ws)
  case Nil
  then show ?case by (simp add: cell_sum_def pair_weight_def)
next
  case (Cons a us)
  show ?case
  proof (cases ars)
    case Nil
    then show ?thesis by (simp add: cell_sum_def pair_weight_def)
  next
    case c: (Cons b ars')
    show ?thesis
    proof (cases ws)
      case Nil
      then show ?thesis by (simp add: cell_sum_def pair_weight_def)
    next
      case w: (Cons x ws')
      have ih: "cell_sum (zip (map nat us) (zip (map nat ars') ws')) u i
                 = pair_weight (zip us (zip ars' ws')) (int u) (int i)"
        using Cons.IH[of ars' ws'] Cons.prems c by simp
      have ab: "0 \<le> a" "0 \<le> b" using Cons.prems c by auto
      have eqs: "(nat a = u) = (a = int u)" "(nat b = i) = (b = int i)"
        using ab by auto
      show ?thesis
        using ih unfolding c w cell_sum_def pair_weight_def
        by (simp add: eqs)
    qed
  qed
qed

lemma pairs_of_triples:
  "length rs = length ws \<Longrightarrow> length cs = length ws \<Longrightarrow>
   (\<lambda>t. (fst t, fst (snd t))) ` set (zip rs (zip cs ws)) = set (zip rs cs)"
proof (induction rs arbitrary: cs ws)
  case Nil
  then show ?case by simp
next
  case (Cons r rs)
  then obtain c cs' w ws' where "cs = c # cs'" "ws = w # ws'"
    by (cases cs; cases ws) auto
  with Cons show ?case by auto
qed

lemma Max_index_bound:
  "x \<in> set xs \<Longrightarrow> \<forall>y \<in> set xs. 0 \<le> y \<Longrightarrow> nat x < nat (Max (set xs)) + 1"
proof -
  assume "x \<in> set xs" "\<forall>y \<in> set xs. 0 \<le> y"
  then have "x \<le> Max (set xs)" by simp
  then show ?thesis by linarith
qed

section \<open>The interaction loader\<close>

lemma load_user_artists_columns:
  assumes "read_csv path = Inr df"
    and "map_of df ''userID'' = Some ucol"
    and "map_of df ''artistID'' = Some acol"
    and "map_of df ''weight'' = Some wcol"
    and "astype_float py_float wcol = Inr ws"
  shows "load_user_artists py_float read_csv path =
           (case coo_matrix ws ucol acol of Inl e \<Rightarrow> Inl e | Inr A \<Rightarrow> Inr (tocsr A))"
  using assms
  by (simp add: load_user_artists_def set_index2_def map_of_drop_columns)


lemma coo_matrix_Inr:
  assumes "coo_matrix ws ucol acol = Inr A"
  shows "\<exists>us ars. ucol = Int64 us \<and> acol = Int64 ars \<and> us \<noteq> [] \<and> ars \<noteq> []
           \<and> length us = length ws \<and> length ars = length ws
           \<and> (\<forall>u \<in> set us. 0 \<le> u) \<and> (\<forall>i \<in> set ars. 0 \<le> i)
           \<and> A = \<lparr>coo_shape = (nat (Max (set us)) + 1, nat (Max (set ars)) + 1),
                   coo_row = map nat us, coo_col = map nat ars, coo_data = ws\<rparr>"
proof (cases ucol)
  case u: (Int64 us)
  show ?thesis
  proof (cases acol)
    case a: (Int64 ars)
    show ?thesis
      using assms unfolding u a coo_matrix_def
      by (simp split: if_splits) force
  qed (use assms u in \<open>auto simp: coo_matrix_def split: if_splits\<close>)
qed (use assms in \<open>auto simp: coo_matrix_def split: if_splits\<close>)

lemma load_user_artists_Inr:
  assumes "load_user_artists py_float read_csv path = Inr M"
  shows "\<exists>df us ars wcol ws.
           read_csv path = Inr df
           \<and> map_of df ''userID'' = Some (Int64 us)
           \<and> map_of df ''artistID'' = Some (Int64 ars)
           \<and> map_of df ''weight'' = Some wcol
           \<and> astype_float py_float wcol = Inr ws
           \<and> us \<noteq> [] \<and> ars \<noteq> []
           \<and> length us = length ws \<and> length ars = length ws
           \<and> (\<forall>u \<in> set us. 0 \<le> u) \<and> (\<forall>i \<in> set ars. 0 \<le> i)
           \<and> M = tocsr \<lparr>coo_shape = (nat (Max (set us)) + 1, nat (Max (set ars)) + 1),
                         coo_row = map nat us, coo_col = map nat ars, coo_data = ws\<rparr>"
proof -
  from assms obtain df where df: "read_csv path = Inr df"
    by (auto simp: load_user_artists_def split: sum.splits)
  from assms df obtain ucol acol where cols:
      "map_of df ''userID'' = Some ucol" "map_of df ''artistID'' = Some acol"
    by (auto simp: load_user_artists_def set_index2_def split: sum.splits option.splits)
  from assms df cols obtain wcol where w: "map_of df ''weight'' = Some wcol"
    by (auto simp: load_user_artists_def set_index2_def map_of_drop_columns
             split: sum.splits option.splits)
  from assms df cols w obtain ws where ws: "astype_float py_float wcol = Inr ws"
    by (auto simp: load_user_artists_def set_index2_def map_of_drop_columns
             split: sum.splits option.splits)
  from assms obtain A where A: "coo_matrix ws ucol acol = Inr A" "M = tocsr A"
    unfolding load_user_artists_columns[where read_csv = read_csv and path = path, OF df cols w ws]
    by (auto split: sum.splits)
  from coo_matrix_Inr[OF A(1)] show ?thesis
    using df cols w ws A(2) by blast
qed

lemma interaction_matrix_facts:
  assumes "us \<noteq> []" and "length us = length ws" and "length ars = length ws"
    and "\<forall>u \<in> set us. 0 \<le> u" and "\<forall>i \<in> set ars. 0 \<le> i"
    and "M = tocsr \<lparr>coo_shape = (nat (Max (set us)) + 1, nat (Max (set ars)) + 1),
                     coo_row = map nat us, coo_col = map nat ars, coo_data = ws\<rparr>"
  shows "csr_shape M = (nat (Max (set us)) + 1, nat (Max (set ars)) + 1)"
    and "\<And>k. k < length us \<Longrightarrow>
           nat (us ! k) < fst (csr_shape M) \<and> nat (ars ! k) < snd (csr_shape M)"
    and "\<And>u i. u < fst (csr_shape M) \<Longrightarrow> i < snd (csr_shape M) \<Longrightarrow>
           csr_get M u i = Inr (pair_weight (zip us (zip ars ws)) (int u) (int i))"
    and "csr_sum M = sum_list ws"
    and "csr_dense_sum M = sum_list ws"
    and "set (csr_coords M) = (\<lambda>p. (nat (fst p), nat (snd p))) ` set (zip us ars)"
proof -
  let ?A = "\<lparr>coo_shape = (nat (Max (set us)) + 1, nat (Max (set ars)) + 1),
             coo_row = map nat us, coo_col = map nat ars, coo_data = ws\<rparr>"
  have tr: "coo_triples ?A = zip (map nat us) (zip (map nat ars) ws)"
    by (simp add: coo_triples_def)
  show sh: "csr_shape M = (nat (Max (set us)) + 1, nat (Max (set ars)) + 1)"
    by (simp add: assms(6) csr_shape_def tocsr_def)
  have inrange: "\<forall>t \<in> set (coo_triples ?A).
      fst t < fst (coo_shape ?A) \<and> fst (snd t) < snd (coo_shape ?A)"
  proof
    fix t assume t: "t \<in> set (coo_triples ?A)"
    obtain r c v where rcv: "t = (r, c, v)" by (cases t) auto
    have len: "length (map nat us) = length ws" "length (map nat ars) = length ws"
      using assms by auto
    from t have "r \<in> set (map nat us) \<and> c \<in> set (map nat ars)"
      unfolding tr rcv by (rule triples_rows[OF len])
    then obtain u i where "u \<in> set us" "r = nat u" "i \<in> set ars" "c = nat i" by auto
    then show "fst t < fst (coo_shape ?A) \<and> fst (snd t) < snd (coo_shape ?A)"
      using Max_index_bound[of u us] Max_index_bound[of i ars] assms(4,5) rcv by simp
  qed
  show "\<And>k. k < length us \<Longrightarrow>
           nat (us ! k) < fst (csr_shape M) \<and> nat (ars ! k) < snd (csr_shape M)"
  proof -
    fix k assume k: "k < length us"
    then have "us ! k \<in> set us" "ars ! k \<in> set ars" using assms(2,3) by auto
    then show "nat (us ! k) < fst (csr_shape M) \<and> nat (ars ! k) < snd (csr_shape M)"
      using Max_index_bound[of "us ! k" us] Max_index_bound[of "ars ! k" ars] assms(4,5) sh
      by simp
  qed
  show "\<And>u i. u < fst (csr_shape M) \<Longrightarrow> i < snd (csr_shape M) \<Longrightarrow>
           csr_get M u i = Inr (pair_weight (zip us (zip ars ws)) (int u) (int i))"
  proof -
    fix u i assume "u < fst (csr_shape M)" "i < snd (csr_shape M)"
    then have "csr_get (tocsr ?A) u i = Inr (cell_sum (coo_triples ?A) u i)"
      using sh by (intro tocsr_get) simp_all
    then show "csr_get M u i = Inr (pair_weight (zip us (zip ars ws)) (int u) (int i))"
      using cell_sum_nat[OF assms(4,5)] by (simp add: assms(6) coo_triples_def)
  qed
  have data: "sum_list (map (\<lambda>t. snd (snd t)) (coo_triples ?A)) = sum_list ws"
    unfolding tr using assms(2,3) by (subst triples_data) simp_all
  show "csr_sum M = sum_list ws"
    using tocsr_sum[of ?A] inrange data by (simp add: assms(6))
  show "csr_dense_sum M = sum_list ws"
    using tocsr_dense_sum[OF inrange] data by (simp add: assms(6))
  have "set (csr_coords M) = (\<lambda>t. (fst t, fst (snd t))) ` set (coo_triples ?A)"
    using tocsr_coords[of ?A] inrange by (simp add: assms(6))
  also have "\<dots> = set (zip (map nat us) (map nat ars))"
    unfolding tr using assms(2,3) by (intro pairs_of_triples) simp_all
  also have "\<dots> = (\<lambda>p. (nat (fst p), nat (snd p))) ` set (zip us ars)"
    by (simp add: zip_map_map case_prod_beta)
  finally show "set (csr_coords M) = (\<lambda>p. (nat (fst p), nat (snd p))) ` set (zip us ars)" .
qed




text \<open>
  Claim C6. Every matrix the loader returns comes from a file with at least one row, has
  (largest userID + 1) rows and (largest artistID + 1) columns, and stores its entries exactly
  at the id pairs of the file: the ids are the coordinates.
\<close>

theorem load_user_artists_shape:
  assumes "load_user_artists py_float read_csv path = Inr M"
  shows "\<exists>df us ars.
           read_csv path = Inr df
           \<and> map_of df ''userID'' = Some (Int64 us)
           \<and> map_of df ''artistID'' = Some (Int64 ars)
           \<and> us \<noteq> [] \<and> ars \<noteq> []
           \<and> int (fst (csr_shape M)) = Max (set us) + 1
           \<and> int (snd (csr_shape M)) = Max (set ars) + 1
           \<and> set (csr_coords M) = (\<lambda>p. (nat (fst p), nat (snd p))) ` set (zip us ars)"
proof -
  from load_user_artists_Inr[OF assms] obtain df us ars wcol ws where h:
      "read_csv path = Inr df"
      "map_of df ''userID'' = Some (Int64 us)"
      "map_of df ''artistID'' = Some (Int64 ars)"
      "us \<noteq> []" "ars \<noteq> []"
      "length us = length ws" "length ars = length ws"
      "\<forall>u \<in> set us. 0 \<le> u" "\<forall>i \<in> set ars. 0 \<le> i"
      "M = tocsr \<lparr>coo_shape = (nat (Max (set us)) + 1, nat (Max (set ars)) + 1),
                   coo_row = map nat us, coo_col = map nat ars, coo_data = ws\<rparr>"
    by blast
  note facts = interaction_matrix_facts[OF h(4,6,7,8,9,10)]
  have "hd us \<in> set us" "hd ars \<in> set ars" using h(4,5) by simp_all
  then have "0 \<le> hd us" "hd us \<le> Max (set us)" "0 \<le> hd ars" "hd ars \<le> Max (set ars)"
    using h(8,9) by simp_all
  then have "0 \<le> Max (set us)" "0 \<le> Max (set ars)" by linarith+
  then have "int (fst (csr_shape M)) = Max (set us) + 1"
      "int (snd (csr_shape M)) = Max (set ars) + 1"
    using facts(1) by simp_all
  then show ?thesis using h(1-5) facts(6) by blast
qed

text \<open>The ids 1, 1, 2 and 10, 10, 4 give a matrix of 3 rows and 11 columns.\<close>

theorem load_user_artists_shape_witness:
  "\<exists>M. load_user_artists float_of_numeral interaction_files ''user_artists.dat'' = Inr M
      \<and> csr_shape M = (3, 11) \<and> set (csr_coords M) = {(1, 10), (2, 4)}"
proof -
  obtain M where M:
      "load_user_artists float_of_numeral interaction_files ''user_artists.dat'' = Inr M"
    by (simp add: load_user_artists_def interaction_files_def set_index2_def drop_columns_def
        astype_float_def coo_matrix_def)
  from load_user_artists_shape[OF M] obtain df us ars where h:
      "interaction_files ''user_artists.dat'' = Inr df"
      "map_of df ''userID'' = Some (Int64 us)"
      "map_of df ''artistID'' = Some (Int64 ars)"
      "int (fst (csr_shape M)) = Max (set us) + 1"
      "int (snd (csr_shape M)) = Max (set ars) + 1"
      "set (csr_coords M) = (\<lambda>p. (nat (fst p), nat (snd p))) ` set (zip us ars)"
    by blast
  from h(1) have df: "df = [(''userID'', Int64 [1, 1, 2]), (''artistID'', Int64 [10, 10, 4]),
      (''weight'', Int64 [5, 3, 7])]"
    by (simp add: interaction_files_def)
  from h(2,3) have ids: "us = [1, 1, 2]" "ars = [10, 10, 4]"
    unfolding df by simp_all
  have "int (fst (csr_shape M)) = 3" "int (snd (csr_shape M)) = 11"
    using h(4,5) unfolding ids by simp_all
  then have "csr_shape M = (3, 11)"
    by (simp add: prod_eq_iff)
  moreover have "set (csr_coords M) = {(1, 10), (2, 4)}"
    using h(6) unfolding ids by simp
  ultimately show ?thesis using M by blast
qed



section \<open>The artist directory\<close>

lemma load_artists_success:
  assumes "read_csv path = Inr df" and "map_of df ''id'' = Some idx"
  shows "load_artists read_csv path self =
           (Inr (), self\<lparr>artists_df :=
              Some \<lparr>frame_index = idx, frame_columns = drop_columns [''id''] df\<rparr>\<rparr>)"
  using assms by (simp add: load_artists_def set_index_def)

lemma load_artists_failure:
  assumes "fst (load_artists read_csv path self) = Inl e"
  shows "snd (load_artists read_csv path self) = self"
  using assms by (auto simp: load_artists_def split: sum.splits)

lemma load_artists_cases:
  "(\<exists>e. load_artists read_csv path self = (Inl e, self))
   \<or> (\<exists>df idx. read_csv path = Inr df \<and> map_of df ''id'' = Some idx
         \<and> load_artists read_csv path self =
             (Inr (), self\<lparr>artists_df :=
                Some \<lparr>frame_index = idx, frame_columns = drop_columns [''id''] df\<rparr>\<rparr>))"
  by (auto simp: load_artists_def set_index_def split: sum.splits option.splits)

lemma unique_match:
  assumes "length xs = length ys" and "k < length xs" and "P (xs ! k)"
    and "\<forall>j < length xs. P (xs ! j) \<longrightarrow> j = k"
  shows "map snd (filter (\<lambda>r. P (fst r)) (zip xs ys)) = [ys ! k]"
  using assms
proof (induction xs arbitrary: ys k)
  case Nil
  then show ?case by simp
next
  case (Cons x xs)
  from Cons.prems(1) obtain y ys' where ys: "ys = y # ys'" by (cases ys) auto
  show ?case
  proof (cases k)
    case 0
    have "\<forall>r \<in> set (zip xs ys'). \<not> P (fst r)"
    proof
      fix r assume "r \<in> set (zip xs ys')"
      then obtain j where j: "j < length xs" "xs ! j = fst r"
        by (metis in_set_conv_nth in_set_zipE prod.collapse)
      show "\<not> P (fst r)"
      proof
        assume "P (fst r)"
        then have "P ((x # xs) ! Suc j)" using j by simp
        then have "Suc j = k" using Cons.prems(4) j(1) by auto
        then show False using 0 by simp
      qed
    qed
    then have "filter (\<lambda>r. P (fst r)) (zip xs ys') = []"
      by (simp add: filter_empty_conv)
    then show ?thesis using Cons.prems(3) 0 ys by simp
  next
    case (Suc k')
    have nx: "\<not> P x" using Cons.prems(4) Suc by auto
    have "map snd (filter (\<lambda>r. P (fst r)) (zip xs ys')) = [ys' ! k']"
    proof (rule Cons.IH)
      show "length xs = length ys'" using Cons.prems(1) ys by simp
      show "k' < length xs" using Cons.prems(2) Suc by simp
      show "P (xs ! k')" using Cons.prems(3) Suc by simp
      show "\<forall>j < length xs. P (xs ! j) \<longrightarrow> j = k'"
        using Cons.prems(4) Suc by auto
    qed
    then show ?thesis using nx Suc ys by simp
  qed
qed

lemma no_match:
  "\<forall>x \<in> set xs. \<not> P x \<Longrightarrow> filter (\<lambda>r. P (fst r)) (zip xs ys) = []"
  by (auto simp: filter_empty_conv dest: set_zip_leftD)

lemma column_values_length: "length (column_values c) = column_length c"
  by (cases c) simp_all

lemma lookup_absent:
  assumes "artists_df r = Some df"
    and "\<forall>l \<in> set (column_values (frame_index df)). \<not> label_eq a l"
  shows "get_artist_name_from_id r a = Inl KeyError"
  using assms(1)
  by (simp add: get_artist_name_from_id_def loc_def no_match[OF assms(2)] split: option.splits)

text \<open>
  Claim C4. After \<open>load_artists\<close> on a file whose \<open>id\<close> column holds the integers \<open>ids\<close>
  and whose \<open>name\<close> column holds \<open>names\<close>, the load succeeds, the lookup of an id that
  stands in exactly one row returns the name cell of that row, and the lookup of an id that
  stands in no row raises KeyError.
\<close>

theorem load_artists_round_trip:
  assumes "read_csv path = Inr df"
    and "map_of df ''id'' = Some (Int64 ids)"
    and "map_of df ''name'' = Some names"
    and "column_length names = length ids"
  shows "fst (load_artists read_csv path self) = Inr ()
       \<and> (\<forall>k < length ids. (\<forall>j < length ids. ids ! j = ids ! k \<longrightarrow> j = k) \<longrightarrow>
             get_artist_name_from_id (snd (load_artists read_csv path self)) (ids ! k)
               = Inr (Scalar (column_values names ! k)))
       \<and> (\<forall>a. a \<notin> set ids \<longrightarrow>
             get_artist_name_from_id (snd (load_artists read_csv path self)) a
               = Inl KeyError)"
proof -
  let ?r = "snd (load_artists read_csv path self)"
  let ?df = "\<lparr>frame_index = Int64 ids, frame_columns = drop_columns [''id''] df\<rparr>"
  note load = load_artists_success[where read_csv = read_csv and path = path and self = self,
      OF assms(1,2)]
  have r: "artists_df ?r = Some ?df" by (simp add: load)
  have col: "map_of (frame_columns ?df) ''name'' = Some names"
    by (simp add: map_of_drop_columns assms(3))
  have "get_artist_name_from_id ?r (ids ! k) = Inr (Scalar (column_values names ! k))"
    if k: "k < length ids" and u: "\<forall>j < length ids. ids ! j = ids ! k \<longrightarrow> j = k" for k
  proof -
    have "map snd (filter (\<lambda>r. label_eq (ids ! k) (fst r))
            (zip (map PInt ids) (column_values names))) = [column_values names ! k]"
      using k u by (intro unique_match) (simp_all add: column_values_length assms(4))
    then show ?thesis
      using col by (simp add: get_artist_name_from_id_def r loc_def)
  qed
  moreover have "get_artist_name_from_id ?r a = Inl KeyError" if "a \<notin> set ids" for a
    using that by (intro lookup_absent[OF r]) auto
  ultimately show ?thesis by (simp add: load)
qed

text \<open>
  The round trip of the specification: the file with the rows (1, "A") and (2, "B").
\<close>

theorem load_artists_round_trip_witness:
  "fst (load_artists artist_files ''artists.dat'' ArtistRetriever_init) = Inr ()
   \<and> get_artist_name_from_id
        (snd (load_artists artist_files ''artists.dat'' ArtistRetriever_init)) 1
       = Inr (Scalar (PStr ''A''))
   \<and> get_artist_name_from_id
        (snd (load_artists artist_files ''artists.dat'' ArtistRetriever_init)) 2
       = Inr (Scalar (PStr ''B''))
   \<and> get_artist_name_from_id
        (snd (load_artists artist_files ''artists.dat'' ArtistRetriever_init)) 3
       = Inl KeyError"
proof -
  have df: "artist_files ''artists.dat'' =
      Inr [(''id'', Int64 [1, 2]), (''name'', Object [''A'', ''B'']),
           (''url'', Object [''a.example'', ''b.example''])]"
    by (simp add: artist_files_def)
  note t = load_artists_round_trip[where read_csv = artist_files and ids = "[1, 2]"
      and names = "Object [''A'', ''B'']" and self = ArtistRetriever_init, OF df]
  have t': "fst (load_artists artist_files ''artists.dat'' ArtistRetriever_init) = Inr ()
       \<and> (\<forall>k < length [1, 2 :: int].
             (\<forall>j < length [1, 2 :: int]. [1, 2 :: int] ! j = [1, 2] ! k \<longrightarrow> j = k) \<longrightarrow>
             get_artist_name_from_id
               (snd (load_artists artist_files ''artists.dat'' ArtistRetriever_init)) ([1, 2] ! k)
               = Inr (Scalar (column_values (Object [''A'', ''B'']) ! k)))
       \<and> (\<forall>a. a \<notin> set [1, 2] \<longrightarrow>
             get_artist_name_from_id
               (snd (load_artists artist_files ''artists.dat'' ArtistRetriever_init)) a
               = Inl KeyError)"
    using t by simp
  have u: "\<forall>j < length [1, 2 :: int]. [1, 2 :: int] ! j = [1, 2] ! k \<longrightarrow> j = k"
    if "k < 2" for k
    using that by (auto simp: less_Suc_eq nth_Cons')
  have "get_artist_name_from_id
          (snd (load_artists artist_files ''artists.dat'' ArtistRetriever_init)) ([1, 2] ! 0)
          = Inr (Scalar (column_values (Object [''A'', ''B'']) ! 0))"
    using t' u[of 0] by (metis length_Cons list.size(3) numeral_2_eq_2 zero_less_Suc)
  moreover have "get_artist_name_from_id
          (snd (load_artists artist_files ''artists.dat'' ArtistRetriever_init)) ([1, 2] ! 1)
          = Inr (Scalar (column_values (Object [''A'', ''B'']) ! 1))"
    using t' u[of 1] by (metis One_nat_def length_Cons list.size(3) numeral_2_eq_2 lessI)
  moreover have "get_artist_name_from_id
          (snd (load_artists artist_files ''artists.dat'' ArtistRetriever_init)) 3
          = Inl KeyError"
    using t' by simp
  ultimately show ?thesis using t' by simp
qed

lemma load_all_failures:
  assumes "\<forall>f \<in> set files. \<exists>e. fst (load_artists read_csv f self) = Inl e"
  shows "load_all read_csv files self = self"
  using assms
proof (induction files)
  case Nil
  then show ?case by (simp add: load_all_def)
next
  case (Cons f files)
  then obtain e where "fst (load_artists read_csv f self) = Inl e" by auto
  then have "snd (load_artists read_csv f self) = self" by (rule load_artists_failure)
  then show ?case using Cons by (simp add: load_all_def)
qed

text \<open>
  Claim C8. On an instance on which no load has succeeded (a new instance, after any number
  of loads that all failed), the lookup of every id raises AttributeError: \<open>_artists_df\<close> is
  still \<open>None\<close>, which has no \<open>loc\<close>. This is the exception Python raises for the
  uninitialised state.
\<close>

theorem lookup_before_load_fails:
  assumes "\<forall>f \<in> set files. \<exists>e. fst (load_artists read_csv f ArtistRetriever_init) = Inl e"
  shows "get_artist_name_from_id (load_all read_csv files ArtistRetriever_init) artist_id
           = Inl AttributeError"
  using load_all_failures[OF assms]
  by (simp add: get_artist_name_from_id_def ArtistRetriever_init_def)

text \<open>A new instance, and one after a load without an \<open>id\<close> column and a load of no file.\<close>

theorem lookup_before_load_fails_witness:
  "get_artist_name_from_id (load_all artist_files [] ArtistRetriever_init) 1
     = Inl AttributeError
   \<and> get_artist_name_from_id
       (load_all artist_files [''no_id.dat'', ''nowhere.dat''] ArtistRetriever_init) 1
     = Inl AttributeError"
proof -
  have "\<forall>f \<in> set [''no_id.dat'', ''nowhere.dat''].
      \<exists>e. fst (load_artists artist_files f ArtistRetriever_init) = Inl e"
    by (simp add: load_artists_def artist_files_def set_index_def)
  then show ?thesis
    using lookup_before_load_fails[of "[]" artist_files 1]
      lookup_before_load_fails[of "[''no_id.dat'', ''nowhere.dat'']" artist_files 1]
    by simp
qed

text \<open>
  Claim C9. A load that raises leaves the instance as it was, at every statement of the
  call. A load that succeeds assigns the attribute once, to the table built from the whole
  file: the index is the file's \<open>id\<close> column and the columns are all the others. The
  instance is, after every statement, either as it was before the call or as the call
  leaves it.
\<close>

theorem load_artists_atomic:
  "(\<forall>e. fst (load_artists read_csv path self) = Inl e \<longrightarrow>
        snd (load_artists read_csv path self) = self
        \<and> (\<forall>t \<in> set (load_artists_states read_csv path self). t = self))
   \<and> (fst (load_artists read_csv path self) = Inr () \<longrightarrow>
        (\<exists>df idx. read_csv path = Inr df \<and> map_of df ''id'' = Some idx
           \<and> snd (load_artists read_csv path self) =
               self\<lparr>artists_df :=
                 Some \<lparr>frame_index = idx, frame_columns = drop_columns [''id''] df\<rparr>\<rparr>))
   \<and> (\<forall>t \<in> set (load_artists_states read_csv path self).
        t = self \<or> t = snd (load_artists read_csv path self))
   \<and> last (load_artists_states read_csv path self) = snd (load_artists read_csv path self)"
  by (auto simp: load_artists_def load_artists_states_def set_index_def
           split: sum.splits option.splits)

text \<open>
  A loaded directory keeps its table when a second load fails (a file with no \<open>id\<close>
  column, a file that does not exist) and has the new table after one that succeeds.
\<close>

theorem load_artists_atomic_witness:
  "snd (load_artists artist_files ''no_id.dat'' loaded_directory) = loaded_directory
   \<and> snd (load_artists artist_files ''nowhere.dat'' loaded_directory) = loaded_directory
   \<and> load_artists_states artist_files ''no_id.dat'' loaded_directory
       = [loaded_directory, loaded_directory]
   \<and> snd (load_artists artist_files ''artists.dat'' loaded_directory)
       = \<lparr>artists_df = Some \<lparr>frame_index = Int64 [1, 2],
            frame_columns = [(''name'', Object [''A'', ''B'']),
                             (''url'', Object [''a.example'', ''b.example''])]\<rparr>\<rparr>"
proof -
  have f1: "fst (load_artists artist_files ''no_id.dat'' loaded_directory) = Inl KeyError"
    by (simp add: load_artists_def artist_files_def set_index_def)
  have f2: "fst (load_artists artist_files ''nowhere.dat'' loaded_directory)
      = Inl FileNotFoundError"
    by (simp add: load_artists_def artist_files_def)
  have f3: "fst (load_artists artist_files ''artists.dat'' loaded_directory) = Inr ()"
    by (simp add: load_artists_def artist_files_def set_index_def)
  have "snd (load_artists artist_files ''no_id.dat'' loaded_directory) = loaded_directory"
    using load_artists_atomic[of artist_files "''no_id.dat''" loaded_directory] f1 by simp
  moreover have
    "snd (load_artists artist_files ''nowhere.dat'' loaded_directory) = loaded_directory"
    using load_artists_atomic[of artist_files "''nowhere.dat''" loaded_directory] f2 by simp
  moreover have "load_artists_states artist_files ''no_id.dat'' loaded_directory
      = [loaded_directory, loaded_directory]"
    by (simp add: load_artists_states_def artist_files_def set_index_def)
  moreover have "snd (load_artists artist_files ''artists.dat'' loaded_directory)
       = \<lparr>artists_df = Some \<lparr>frame_index = Int64 [1, 2],
            frame_columns = [(''name'', Object [''A'', ''B'']),
                             (''url'', Object [''a.example'', ''b.example''])]\<rparr>\<rparr>"
  proof -
    from load_artists_atomic[of artist_files "''artists.dat''" loaded_directory] f3
    obtain df idx where h: "artist_files ''artists.dat'' = Inr df" "map_of df ''id'' = Some idx"
        "snd (load_artists artist_files ''artists.dat'' loaded_directory) =
           loaded_directory\<lparr>artists_df :=
             Some \<lparr>frame_index = idx, frame_columns = drop_columns [''id''] df\<rparr>\<rparr>"
      by blast
    from h(1) have df: "df = [(''id'', Int64 [1, 2]), (''name'', Object [''A'', ''B'']),
           (''url'', Object [''a.example'', ''b.example''])]"
      by (simp add: artist_files_def)
    from h(2) have idx: "idx = Int64 [1, 2]" unfolding df by simp
    show ?thesis unfolding h(3) idx df
      by (simp add: loaded_directory_def drop_columns_def)
  qed
  ultimately show ?thesis by blast
qed

section \<open>The recommender\<close>


lemma artist_names_fails:
  "a \<in> set ids \<Longrightarrow> get_artist_name_from_id r a = Inl e \<Longrightarrow> \<exists>e'. artist_names r ids = Inl e'"
  by (induction ids) (auto split: sum.splits)

lemma artist_names_error:
  "artist_names r ids = Inl e \<Longrightarrow> \<exists>a \<in> set ids. get_artist_name_from_id r a = Inl e"
  by (induction ids) (auto split: sum.splits)

lemma lookup_error_kind:
  "get_artist_name_from_id r a = Inl e \<Longrightarrow>
   e = (if artists_df r = None then AttributeError else KeyError)"
  by (auto simp: get_artist_name_from_id_def loc_def split: option.splits list.splits)

lemma lookup_no_entry:
  "\<not> has_entry r a \<Longrightarrow> \<exists>e. get_artist_name_from_id r a = Inl e"
proof (cases "artists_df r")
  case None
  then show ?thesis by (simp add: get_artist_name_from_id_def)
next
  case (Some df)
  assume "\<not> has_entry r a"
  then have "\<forall>l \<in> set (column_values (frame_index df)). \<not> label_eq a l"
    using Some by (simp add: has_entry_def)
  from lookup_absent[OF Some this] show ?thesis by blast
qed

lemma recommend_translates:
  assumes "csr_getrow M n = Inr row"
    and "model_recommend ops (implicit_model self) user_id row n = (Inr (artist_ids, scores), m')"
  shows "recommend ops self user_id M n =
           (case artist_names (artist_retriever self) artist_ids of
              Inl e \<Rightarrow> (Inl e, self\<lparr>implicit_model := m'\<rparr>, M)
            | Inr artists \<Rightarrow> (Inr (artists, scores), self\<lparr>implicit_model := m'\<rparr>, M))"
  using assms by (simp add: recommend_def)

lemma recommend_records_row:
  "csr_getrow M n = Inr row \<Longrightarrow>
   implicit_model (fst (snd (recommend recording_model self user_id M n)))
     = implicit_model self @ [(user_id, row, n)]"
  by (simp add: recommend_def recording_model_def)

text \<open>
  Claim C1 says that the model receives the row of the requester, \<open>matrix[user_id]\<close>. The
  code evaluates \<open>user_artists_matrix[n]\<close>: the model receives the row whose index is the
  number of recommendations asked for. For user 1 and \<open>n = 2\<close> on a matrix of three rows
  the recording model is called with row 2, which differs from row 1; with \<open>n = 3\<close> the
  call raises IndexError before the model is reached.
\<close>

theorem recommend_selects_row_by_count:
  "implicit_model (fst (snd (recommend recording_model
       \<lparr>artist_retriever = loaded_directory, implicit_model = []\<rparr> 1 three_users 2)))
     = [(1, \<lparr>csr_ncols = 2, csr_rows = [[(1, 7)]]\<rparr>, 2)]
   \<and> csr_getrow three_users 1 = Inr \<lparr>csr_ncols = 2, csr_rows = [[(0, 5)]]\<rparr>
   \<and> fst (recommend recording_model
       \<lparr>artist_retriever = loaded_directory, implicit_model = []\<rparr> 1 three_users 3)
     = Inl IndexError"
  by (simp add: recommend_def recording_model_def three_users_def csr_getrow_def)



text \<open>
  Claim C5. When the model returns an id with no entry in the directory, the call raises
  and returns no names: KeyError when a table is loaded, AttributeError when none is.
\<close>

theorem recommend_missing_entry_fails:
  assumes "csr_getrow M n = Inr row"
    and "model_recommend ops (implicit_model self) user_id row n = (Inr (artist_ids, scores), m')"
    and "a \<in> set artist_ids"
    and "\<not> has_entry (artist_retriever self) a"
  shows "fst (recommend ops self user_id M n) =
           Inl (if artists_df (artist_retriever self) = None then AttributeError else KeyError)"
proof -
  from lookup_no_entry[OF assms(4)] obtain e0
    where "get_artist_name_from_id (artist_retriever self) a = Inl e0" by blast
  from artist_names_fails[OF assms(3) this] obtain e
    where e: "artist_names (artist_retriever self) artist_ids = Inl e" by blast
  from artist_names_error[OF e] obtain b
    where "get_artist_name_from_id (artist_retriever self) b = Inl e" by blast
  then have "e = (if artists_df (artist_retriever self) = None then AttributeError else KeyError)"
    by (rule lookup_error_kind)
  then show ?thesis
    unfolding recommend_translates[OF assms(1,2)] using e by simp
qed

text \<open>The model returns the ids 2, 3, 1 and the directory holds 1 and 2.\<close>

theorem recommend_missing_entry_fails_witness:
  "fst (recommend (fixed_model [2, 3, 1] [9 / 10, 1 / 2, 1 / 4])
          \<lparr>artist_retriever = loaded_directory, implicit_model = 0\<rparr> 1 three_users 2)
     = Inl KeyError"
proof -
  let ?self = "\<lparr>artist_retriever = loaded_directory, implicit_model = 0 :: nat\<rparr>"
  have row: "csr_getrow three_users 2 = Inr \<lparr>csr_ncols = 2, csr_rows = [[(1, 7)]]\<rparr>"
    by (simp add: csr_getrow_def three_users_def)
  have call: "model_recommend (fixed_model [2, 3, 1] [9 / 10, 1 / 2, 1 / 4])
      (implicit_model ?self) 1 \<lparr>csr_ncols = 2, csr_rows = [[(1, 7)]]\<rparr> 2
      = (Inr ([2, 3, 1], [9 / 10, 1 / 2, 1 / 4]), Suc 0)"
    by (simp add: fixed_model_def)
  have mem: "(3 :: int) \<in> set [2, 3, 1]" by simp
  have absent: "\<not> has_entry (artist_retriever ?self) 3"
    by (simp add: has_entry_def loaded_directory_def)
  show ?thesis
    using recommend_missing_entry_fails[OF row call mem absent]
    by (simp add: loaded_directory_def)
qed

text \<open>
  Claim C10. Whatever the call does (return or raise), the recommender still holds the
  same directory with the same table, the matrix is as it was, and the recommender differs
  from the one before the call in the state of the model at most.
\<close>

theorem recommend_frame:
  "artist_retriever (fst (snd (recommend ops self user_id M n))) = artist_retriever self
   \<and> snd (snd (recommend ops self user_id M n)) = M
   \<and> fst (snd (recommend ops self user_id M n))
       = self\<lparr>implicit_model := implicit_model (fst (snd (recommend ops self user_id M n)))\<rparr>"
  by (auto simp: recommend_def split: sum.splits prod.splits)

text \<open>After a call that changes the model's state.\<close>

theorem recommend_frame_witness:
  "artist_retriever (fst (snd (recommend (fixed_model [2, 3, 1] [9 / 10, 1 / 2, 1 / 4])
       \<lparr>artist_retriever = loaded_directory, implicit_model = 0\<rparr> 1 three_users 2)))
     = loaded_directory
   \<and> snd (snd (recommend (fixed_model [2, 3, 1] [9 / 10, 1 / 2, 1 / 4])
       \<lparr>artist_retriever = loaded_directory, implicit_model = 0\<rparr> 1 three_users 2))
     = three_users"
  using recommend_frame[of "fixed_model [2, 3, 1] [9 / 10, 1 / 2, 1 / 4]"
      "\<lparr>artist_retriever = loaded_directory, implicit_model = 0\<rparr>" 1 three_users 2]
  by simp

end
